theory Spec2Isabelle
  imports Main "HOL-Library.Sublist"
begin

section \<open>Text\<close>

text \<open>
  A Python \<open>str\<close> is a sequence of code points. Text is modelled as a HOL string in which
  one character stands for one code point; the character type has the code points
  0 to 255, so the model covers text of that range (ASCII and Latin-1, which holds the
  non-breaking space U+00A0 the source names).

  \<open>is_space\<close> is the set of code points that \<open>str.strip()\<close>, \<open>str.isspace()\<close> and the
  pattern \<open>\s\<close> under \<open>re.UNICODE\<close> treat as whitespace, cut to that range:
  U+0009 to U+000D, U+001C to U+001F, U+0020, U+0085 and U+00A0.
\<close>

definition is_space :: "char \<Rightarrow> bool" where
  "is_space c =
     (let n = (of_char c :: nat)
      in (9 \<le> n \<and> n \<le> 13) \<or> (28 \<le> n \<and> n \<le> 32) \<or> n = 133 \<or> n = 160)"

text \<open>\<open>s.strip()\<close>: whitespace removed at both ends.\<close>

definition strip :: "string \<Rightarrow> string" where
  "strip s = rev (dropWhile is_space (rev (dropWhile is_space s)))"

text \<open>\<open>s.replace(old, new)\<close> for one-character \<open>old\<close> and \<open>new\<close>.\<close>

definition replace :: "char \<Rightarrow> char \<Rightarrow> string \<Rightarrow> string" where
  "replace old new s = map (\<lambda>c. if c = old then new else c) s"

text \<open>
  \<open>s.lower()\<close> on the modelled range: the letters A to Z and the Latin-1 capitals
  U+00C0 to U+00DE (the multiplication sign U+00D7 apart) move up by 32; every other
  code point stays.
\<close>

definition lower_char :: "char \<Rightarrow> char" where
  "lower_char c =
     (let n = (of_char c :: nat)
      in if (65 \<le> n \<and> n \<le> 90) \<or> (192 \<le> n \<and> n \<le> 222 \<and> n \<noteq> 215)
         then char_of (n + 32) else c)"

definition lower :: "string \<Rightarrow> string" where
  "lower s = map lower_char s"

text \<open>\<open>sep.join(xs)\<close>.\<close>

fun join :: "string \<Rightarrow> string list \<Rightarrow> string" where
  "join sep [] = []"
| "join sep [x] = x"
| "join sep (x # y # ys) = x @ sep @ join sep (y # ys)"

section \<open>Column resolver\<close>

text \<open>
  \<open>find_col(cols, needle)\<close>: the first column whose lowered name has the lowered needle
  as a substring (Python's \<open>in\<close> on strings is \<open>sublist\<close>), the empty string when there is
  none.
\<close>

fun find_col :: "string list \<Rightarrow> string \<Rightarrow> string" where
  "find_col [] needle = []"
| "find_col (c # cols) needle =
     (if sublist (lower needle) (lower c) then c else find_col cols needle)"

text \<open>
  The three lookups of the script. \<open>a or b\<close> on strings is \<open>a\<close> unless \<open>a\<close> is empty.
\<close>

definition col_steps :: "string list \<Rightarrow> string" where
  "col_steps cols = find_col cols ''Manual Test Steps''"

definition col_key :: "string list \<Rightarrow> string" where
  "col_key cols =
     (let k = find_col cols ''Issue key'' in if k \<noteq> [] then k else find_col cols ''Key'')"

definition col_sum :: "string list \<Rightarrow> string" where
  "col_sum cols = find_col cols ''Summary''"


section \<open>Decoded JSON values\<close>

text \<open>
  What \<open>json.loads\<close> returns: \<open>None\<close>, a bool, an int, a float, a str, a list or a dict.
  A float is kept as the text that denotes it (no arithmetic is done on it). A dict is
  kept as its pairs in the order of the text; where a key is repeated the last pair is
  the dict's entry.
\<close>
datatype json =
    JNull
  | JBool bool
  | JInt int
  | JFloat string
  | JStr string
  | JArr "json list"
  | JObj "(string \<times> json) list"

text \<open>\<open>d.get(k, default)\<close> on a decoded dict.\<close>

definition dict_get :: "(string \<times> json) list \<Rightarrow> string \<Rightarrow> json \<Rightarrow> json" where
  "dict_get d k dflt = (case map_of (rev d) k of None \<Rightarrow> dflt | Some v \<Rightarrow> v)"

section \<open>The JSON decoder\<close>

text \<open>
  \<open>json\<close> is the standard library, not code of the repository. The cell parser below
  takes the decoder as a parameter \<open>loads\<close>, with \<open>None\<close> for every exception it raises
  (the source catches \<open>Exception\<close>), so that what is proved of the parser for every
  decoder holds of the library's. To run the parser on a concrete cell, \<open>json_loads\<close>
  follows the library's scanner (\<open>scanstring\<close>, \<open>JSONObject\<close>, \<open>JSONArray\<close>,
  \<open>scan_once\<close>, \<open>decode\<close>) on text of the modelled range: whitespace is space, tab,
  line feed and carriage return; a string ends at the next unescaped double quote, holds
  no control character, and knows the escapes of RFC 8259; a number is
  \<open>-?(0|[1-9][0-9]*)(\.[0-9]+)?([eE][-+]?[0-9]+)?\<close>, an int when it has neither
  fraction nor exponent; \<open>NaN\<close>, \<open>Infinity\<close> and \<open>-Infinity\<close> are floats; text after the
  value is an error; an int literal of more than 4300 digits is an error (CPython's
  default limit on the conversion of text to int). The recursion runs on fuel, one unit
  per value and per element of a list or a dict; \<open>json_loads\<close> starts it with one unit
  more than the text has characters.

  Two things the library does are outside \<open>json_loads\<close>, and no property below
  evaluates it there: an escape \<open>\uXXXX\<close> above U+00FF decodes to a code point that
  the character type does not have, and \<open>scanstring\<close> refuses it; and the library
  raises RecursionError on text nested deeper than the interpreter's recursion limit,
  which depends on the state of the interpreter, where \<open>json_loads\<close> decodes it.
  What is proved of the parser for every decoder does not depend on either.
\<close>

definition is_json_ws :: "char \<Rightarrow> bool" where
  "is_json_ws c = (c = CHR '' '' \<or> c = CHR 0x09 \<or> c = CHR 0x0A \<or> c = CHR 0x0D)"

definition skip_ws :: "string \<Rightarrow> string" where
  "skip_ws s = dropWhile is_json_ws s"

definition is_digit :: "char \<Rightarrow> bool" where
  "is_digit c = (let n = (of_char c :: nat) in 48 \<le> n \<and> n \<le> 57)"

definition digits_val :: "string \<Rightarrow> nat" where
  "digits_val ds = foldl (\<lambda>a c. 10 * a + (of_char c - 48)) 0 ds"

definition hex_val :: "char \<Rightarrow> nat option" where
  "hex_val c =
     (let n = (of_char c :: nat)
      in if 48 \<le> n \<and> n \<le> 57 then Some (n - 48)
         else if 65 \<le> n \<and> n \<le> 70 then Some (n - 55)
         else if 97 \<le> n \<and> n \<le> 102 then Some (n - 87)
         else None)"

definition hex4 :: "char \<Rightarrow> char \<Rightarrow> char \<Rightarrow> char \<Rightarrow> nat option" where
  "hex4 a b c d =
     (case (hex_val a, hex_val b, hex_val c, hex_val d) of
        (Some w, Some x, Some y, Some z) \<Rightarrow> Some (((w * 16 + x) * 16 + y) * 16 + z)
      | _ \<Rightarrow> None)"

definition unescape :: "char \<Rightarrow> char option" where
  "unescape e =
     (if e = CHR 0x22 \<or> e = CHR 0x5C \<or> e = CHR ''/'' then Some e
      else if e = CHR ''b'' then Some (CHR 0x08)
      else if e = CHR ''f'' then Some (CHR 0x0C)
      else if e = CHR ''n'' then Some (CHR 0x0A)
      else if e = CHR ''r'' then Some (CHR 0x0D)
      else if e = CHR ''t'' then Some (CHR 0x09)
      else None)"

definition push :: "char \<Rightarrow> (string \<times> string) option \<Rightarrow> (string \<times> string) option" where
  "push c res = (case res of None \<Rightarrow> None | Some (t, rest) \<Rightarrow> Some (c # t, rest))"

fun scanstring :: "string \<Rightarrow> (string \<times> string) option" where
  "scanstring [] = None"
| "scanstring (c # cs) =
     (if c = CHR 0x22 then Some ([], cs)
      else if c = CHR 0x5C then
        (case cs of
           [] \<Rightarrow> None
         | e # r \<Rightarrow>
             if e = CHR ''u'' then
               (case r of
                  h1 # h2 # h3 # h4 # r' \<Rightarrow>
                    (case hex4 h1 h2 h3 h4 of
                       None \<Rightarrow> None
                     | Some n \<Rightarrow> if n < 256 then push (char_of n) (scanstring r') else None)
                | _ \<Rightarrow> None)
             else (case unescape e of None \<Rightarrow> None | Some ch \<Rightarrow> push ch (scanstring r)))
      else if (of_char c :: nat) < 32 then None
      else push c (scanstring cs))"

definition scan_number :: "string \<Rightarrow> (json \<times> string) option" where
  "scan_number s =
     (let sign = (if prefix ''-'' s then ''-'' else []);
          s1 = drop (length sign) s;
          ip = (if prefix ''0'' s1 then ''0'' else takeWhile is_digit s1)
      in if ip = [] then None
         else
           let s2 = drop (length ip) s1;
               fr = (case s2 of
                       [] \<Rightarrow> []
                     | c # r \<Rightarrow>
                         if c = CHR ''.'' \<and> takeWhile is_digit r \<noteq> []
                         then c # takeWhile is_digit r else []);
               s3 = drop (length fr) s2;
               ex = (case s3 of
                       [] \<Rightarrow> []
                     | c # r \<Rightarrow>
                         if c = CHR ''e'' \<or> c = CHR ''E'' then
                           (let sg = (if prefix ''+'' r \<or> prefix ''-'' r then take 1 r else []);
                                ds = takeWhile is_digit (drop (length sg) r)
                            in if ds = [] then [] else c # sg @ ds)
                         else []);
               s4 = drop (length ex) s3
           in if fr = [] \<and> ex = []
              then if length ip > 4300 then None
                   else Some (JInt (if sign = [] then int (digits_val ip)
                                    else - int (digits_val ip)), s4)
              else Some (JFloat (sign @ ip @ fr @ ex), s4))"

fun scan_once :: "nat \<Rightarrow> string \<Rightarrow> (json \<times> string) option"
  and scan_array :: "nat \<Rightarrow> string \<Rightarrow> (json list \<times> string) option"
  and scan_object :: "nat \<Rightarrow> string \<Rightarrow> ((string \<times> json) list \<times> string) option"
where
  "scan_once 0 s = None"
| "scan_once (Suc n) s =
     (case s of
        [] \<Rightarrow> None
      | c # r \<Rightarrow>
          if c = CHR 0x22 then
            (case scanstring r of None \<Rightarrow> None | Some (t, r') \<Rightarrow> Some (JStr t, r'))
          else if c = CHR 0x7B then
            (case skip_ws r of
               [] \<Rightarrow> None
             | d # r' \<Rightarrow>
                 if d = CHR 0x7D then Some (JObj [], r')
                 else (case scan_object n (d # r') of
                         None \<Rightarrow> None
                       | Some (kvs, r'') \<Rightarrow> Some (JObj kvs, r'')))
          else if c = CHR ''['' then
            (case skip_ws r of
               [] \<Rightarrow> None
             | d # r' \<Rightarrow>
                 if d = CHR '']'' then Some (JArr [], r')
                 else (case scan_array n (d # r') of
                         None \<Rightarrow> None
                       | Some (vs, r'') \<Rightarrow> Some (JArr vs, r'')))
          else if prefix ''null'' s then Some (JNull, drop 4 s)
          else if prefix ''true'' s then Some (JBool True, drop 4 s)
          else if prefix ''false'' s then Some (JBool False, drop 5 s)
          else
            (case scan_number s of
               Some x \<Rightarrow> Some x
             | None \<Rightarrow>
                 if prefix ''NaN'' s then Some (JFloat ''NaN'', drop 3 s)
                 else if prefix ''Infinity'' s then Some (JFloat ''Infinity'', drop 8 s)
                 else if prefix ''-Infinity'' s then Some (JFloat ''-Infinity'', drop 9 s)
                 else None))"
| "scan_array 0 s = None"
| "scan_array (Suc n) s =
     (case scan_once n s of
        None \<Rightarrow> None
      | Some (v, r) \<Rightarrow>
          (case skip_ws r of
             [] \<Rightarrow> None
           | d # r' \<Rightarrow>
               if d = CHR '']'' then Some ([v], r')
               else if d = CHR '','' then
                 (case scan_array n (skip_ws r') of
                    None \<Rightarrow> None
                  | Some (vs, r'') \<Rightarrow> Some (v # vs, r''))
               else None))"
| "scan_object 0 s = None"
| "scan_object (Suc n) s =
     (case s of
        [] \<Rightarrow> None
      | c # r \<Rightarrow>
          if c \<noteq> CHR 0x22 then None
          else
            (case scanstring r of
               None \<Rightarrow> None
             | Some (k, r1) \<Rightarrow>
                 (case skip_ws r1 of
                    [] \<Rightarrow> None
                  | d # r2 \<Rightarrow>
                      if d \<noteq> CHR '':'' then None
                      else
                        (case scan_once n (skip_ws r2) of
                           None \<Rightarrow> None
                         | Some (v, r3) \<Rightarrow>
                             (case skip_ws r3 of
                                [] \<Rightarrow> None
                              | e # r4 \<Rightarrow>
                                  if e = CHR 0x7D then Some ([(k, v)], r4)
                                  else if e = CHR '','' then
                                    (case scan_object n (skip_ws r4) of
                                       None \<Rightarrow> None
                                     | Some (kvs, r5) \<Rightarrow> Some ((k, v) # kvs, r5))
                                  else None)))))"

definition json_loads :: "string \<Rightarrow> json option" where
  "json_loads s =
     (case scan_once (Suc (length s)) (skip_ws s) of
        None \<Rightarrow> None
      | Some (v, r) \<Rightarrow> if skip_ws r = [] then Some v else None)"

section \<open>Cell parser\<close>

datatype pyerror = AttributeError | KeyError | ValueError | TypeError

text \<open>One parsed step: the dict with keys Step #, Action, Data and Expected Result.\<close>

record step =
  step_no :: json
  action :: string
  data :: string
  expected :: string

text \<open>
  \<open>str(x)\<close>: a str is itself; every other value prints as its \<open>repr\<close>, which is the
  interpreter's and is taken as the parameter \<open>repr\<close>.
\<close>

fun py_str :: "(json \<Rightarrow> string) \<Rightarrow> json \<Rightarrow> string" where
  "py_str repr (JStr s) = s"
| "py_str repr v = repr v"

text \<open>\<open>re.sub(r"\s+", " ", s)\<close>: every maximal run of whitespace becomes one space.\<close>

function collapse_ws :: "string \<Rightarrow> string" where
  "collapse_ws [] = []"
| "collapse_ws (c # cs) =
     (if is_space c then CHR '' '' # collapse_ws (dropWhile is_space cs)
      else c # collapse_ws cs)"
  by pat_completeness auto
termination
  by (relation "measure length") (auto simp: less_Suc_eq_le length_dropWhile_le)

definition clean_text :: "(json \<Rightarrow> string) \<Rightarrow> json \<Rightarrow> string" where
  "clean_text repr x =
     (let s = (if x \<noteq> JNull then py_str repr x else []) in strip (collapse_ws s))"

text \<open>
  The body of the loop over the decoded list. \<open>fields.get\<close> and \<open>item.get\<close> are method
  calls: on a value that is not a dict they raise AttributeError. Line 67 of the source
  guards the read of \<open>fields\<close> with \<open>isinstance(item, dict)\<close>; the reads of \<open>fields\<close>'s
  entries and line 72's \<open>item.get("index")\<close> are not guarded.
\<close>

definition step_of :: "(json \<Rightarrow> string) \<Rightarrow> json \<Rightarrow> pyerror + step" where
  "step_of repr item =
     (let fields = (case item of JObj d \<Rightarrow> dict_get d ''fields'' (JObj []) | _ \<Rightarrow> JObj [])
      in case fields of
           JObj f \<Rightarrow>
             (let action = dict_get f ''Action'' (JStr []);
                  data = dict_get f ''Data'' (JStr []);
                  expected = dict_get f ''Expected Result'' (JStr [])
              in case item of
                   JObj d \<Rightarrow>
                     Inr \<lparr>step_no = dict_get d ''index'' JNull,
                          action = clean_text repr action,
                          data = clean_text repr data,
                          expected = clean_text repr expected\<rparr>
                 | _ \<Rightarrow> Inl AttributeError)
         | _ \<Rightarrow> Inl AttributeError)"

text \<open>The loop: the steps in order; the first exception leaves the function.\<close>

fun steps_of :: "(json \<Rightarrow> string) \<Rightarrow> json list \<Rightarrow> pyerror + step list" where
  "steps_of repr [] = Inr []"
| "steps_of repr (item # items) =
     (case step_of repr item of
        Inl e \<Rightarrow> Inl e
      | Inr st \<Rightarrow>
          (case steps_of repr items of Inl e \<Rightarrow> Inl e | Inr out \<Rightarrow> Inr (st # out)))"

text \<open>What follows the two decode attempts: \<open>out\<close> stays empty unless \<open>arr\<close> is a list.\<close>

definition steps_of_value :: "(json \<Rightarrow> string) \<Rightarrow> json \<Rightarrow> pyerror + step list" where
  "steps_of_value repr arr = (case arr of JArr items \<Rightarrow> steps_of repr items | _ \<Rightarrow> Inr [])"

text \<open>
  \<open>parse_manual_steps_cell(cell)\<close>. The cell is a str (\<open>Some\<close>) or anything else
  (\<open>None\<close>: a frame read with \<open>dtype=str\<close> holds NaN where the file has no text).
\<close>

definition parse_manual_steps_cell ::
  "(string \<Rightarrow> json option) \<Rightarrow> (json \<Rightarrow> string) \<Rightarrow> string option \<Rightarrow> pyerror + step list"
where
  "parse_manual_steps_cell loads repr cell =
     (case cell of
        None \<Rightarrow> Inr []
      | Some c \<Rightarrow>
          if strip c = [] then Inr []
          else
            (let s = replace (CHR 0xA0) (CHR '' '') (strip c)
             in (case loads s of
                   Some arr \<Rightarrow> steps_of_value repr arr
                 | None \<Rightarrow>
                     (let s_relaxed = replace (CHR 0x27) (CHR 0x22) s
                      in (case loads s_relaxed of
                            Some arr \<Rightarrow> steps_of_value repr arr
                          | None \<Rightarrow> Inr [])))))"

section \<open>Frames\<close>

text \<open>
  A cell of a frame: missing (\<open>None\<close> or NaN), text, a number, or a decoded value. A row
  gives each column's cell, a frame its columns, the dtype of each column and its rows
  in index order; the frames of the script have the default index 0, 1, 2, ...
  The uploaded table is read with \<open>dtype=str\<close>: its rows give text or nothing.

  The dtype says how a column holds its values. A column of dtype \<open>Object\<close> (pandas'
  object, and its str dtype from 3.0 on) holds Python objects, a str among them. A column
  of dtype \<open>Int64\<close>, \<open>Float64\<close> or \<open>Bool\<close> holds numbers only: a cell of such a
  column stands for the number the column holds, so that the int 1 of a \<open>Float64\<close>
  column is the float 1.0.
\<close>

datatype cell = NA | Txt string | Num nat | Val json

datatype dtype = Object | Int64 | Float64 | Bool

type_synonym row = "string \<Rightarrow> cell"

record frame =
  columns :: "string list"
  dtypes :: "string \<Rightarrow> dtype"
  rows :: "row list"

type_synonym raw_row = "string \<Rightarrow> string option"

definition text_cell :: "string option \<Rightarrow> cell" where
  "text_cell t = (case t of None \<Rightarrow> NA | Some s \<Rightarrow> Txt s)"

definition value_cell :: "json \<Rightarrow> cell" where
  "value_cell v = (case v of JNull \<Rightarrow> NA | _ \<Rightarrow> Val v)"

section \<open>Flattener\<close>

text \<open>The dict appended to \<open>rows\<close>: the six keys of a flat row before numbering.\<close>

definition flat_row :: "cell \<Rightarrow> cell \<Rightarrow> cell \<Rightarrow> string \<Rightarrow> string \<Rightarrow> string \<Rightarrow> row" where
  "flat_row key summ stepno a d e =
     (\<lambda>_. NA)(''Issue key'' := key, ''Summary'' := summ, ''Step #'' := stepno,
       ''Action'' := Txt a, ''Data'' := Txt d, ''Expected Result'' := Txt e)"

text \<open>The body of the loop over \<open>df.iterrows()\<close>: the rows one record appends.\<close>

definition record_rows ::
  "(string \<Rightarrow> json option) \<Rightarrow> (json \<Rightarrow> string) \<Rightarrow> string \<Rightarrow> string \<Rightarrow> string \<Rightarrow>
   raw_row \<Rightarrow> pyerror + row list"
where
  "record_rows loads repr c_steps c_key c_sum r =
     (let key = text_cell (r c_key);
          summ = text_cell (r c_sum)
      in case parse_manual_steps_cell loads repr (r c_steps) of
           Inl e \<Rightarrow> Inl e
         | Inr steps \<Rightarrow>
             if steps = [] then Inr [flat_row key summ NA [] [] []]
             else Inr (map (\<lambda>s. flat_row key summ (value_cell (step_no s))
                                   (action s) (data s) (expected s)) steps))"

fun all_rows ::
  "(string \<Rightarrow> json option) \<Rightarrow> (json \<Rightarrow> string) \<Rightarrow> string \<Rightarrow> string \<Rightarrow> string \<Rightarrow>
   raw_row list \<Rightarrow> pyerror + row list"
where
  "all_rows loads repr c_steps c_key c_sum [] = Inr []"
| "all_rows loads repr c_steps c_key c_sum (r # rs) =
     (case record_rows loads repr c_steps c_key c_sum r of
        Inl e \<Rightarrow> Inl e
      | Inr new \<Rightarrow>
          (case all_rows loads repr c_steps c_key c_sum rs of
             Inl e \<Rightarrow> Inl e
           | Inr later \<Rightarrow> Inr (new @ later)))"

text \<open>\<open>pd.unique\<close>: the distinct values in the order of their first appearance.\<close>

fun pd_unique :: "'a list \<Rightarrow> 'a list" where
  "pd_unique [] = []"
| "pd_unique (x # xs) = x # pd_unique (removeAll x xs)"

text \<open>
  \<open>{k: i + 1 for i, k in enumerate([u for u in uniques if pd.notna(u)])}\<close>
\<close>

definition case_map :: "cell list \<Rightarrow> cell \<Rightarrow> nat option" where
  "case_map uniques =
     (let ks = filter (\<lambda>u. u \<noteq> NA) uniques in map_of (zip ks [1 ..< Suc (length ks)]))"

text \<open>
  \<open>pd.DataFrame(rows)\<close> infers the dtype of each column from its values. A column of
  str and NaN (Issue key, Summary) is an object column, a float64 column when every
  value is NaN. The column Step # holds what \<open>item.get("index")\<close> gave, \<open>None\<close> where
  it gave nothing: it is an object column when it holds a str, a list or a dict, when it
  holds \<open>None\<close> only, or when it holds bools beside other values; a bool column when it
  holds bools only; otherwise a float64 column when it holds a float or \<open>None\<close>, and an
  int64 column when it holds ints only (ints within the range of int64).
\<close>

definition text_dtype :: "cell list \<Rightarrow> dtype" where
  "text_dtype cells = (if \<forall>c \<in> set cells. c = NA then Float64 else Object)"

definition is_object :: "cell \<Rightarrow> bool" where
  "is_object c =
     (case c of
        Txt t \<Rightarrow> True
      | Val (JStr t) \<Rightarrow> True
      | Val (JArr vs) \<Rightarrow> True
      | Val (JObj d) \<Rightarrow> True
      | _ \<Rightarrow> False)"

definition is_bool :: "cell \<Rightarrow> bool" where
  "is_bool c = (case c of Val (JBool b) \<Rightarrow> True | _ \<Rightarrow> False)"

definition is_float :: "cell \<Rightarrow> bool" where
  "is_float c = (case c of Val (JFloat f) \<Rightarrow> True | _ \<Rightarrow> False)"

definition infer_dtype :: "cell list \<Rightarrow> dtype" where
  "infer_dtype cells =
     (if \<exists>c \<in> set cells. is_object c then Object
      else if \<forall>c \<in> set cells. c = NA then Object
      else if \<exists>c \<in> set cells. is_bool c
           then (if \<forall>c \<in> set cells. is_bool c then Bool else Object)
      else if \<exists>c \<in> set cells. c = NA \<or> is_float c then Float64
      else Int64)"

text \<open>
  \<open>build_flat(df, col_steps, col_key, col_sum)\<close>, the three column names written
  \<open>c_steps\<close>, \<open>c_key\<close> and \<open>c_sum\<close>. Three calls into pandas can raise:
  \<^item> \<open>pd.DataFrame([])\<close> is a frame without columns, so with no row appended
    \<open>flat["Issue key"]\<close> (line 112) raises KeyError;
  \<^item> \<open>pd.Categorical(values, categories=pd.unique(values))\<close> (line 112) validates its
    categories and raises ValueError ("Categorical categories cannot be null") when a
    key is missing, since \<open>pd.unique\<close> keeps the missing value;
  \<^item> \<open>Series.map(case_map)\<close> gives the missing value for a key the dict does not have.
  The column \<open>_ord\<close> is added and dropped again and leaves no other trace.
\<close>

definition build_flat ::
  "(string \<Rightarrow> json option) \<Rightarrow> (json \<Rightarrow> string) \<Rightarrow> raw_row list \<Rightarrow> string \<Rightarrow> string \<Rightarrow> string \<Rightarrow>
   pyerror + frame"
where
  "build_flat loads repr df c_steps c_key c_sum =
     (case all_rows loads repr c_steps c_key c_sum df of
        Inl e \<Rightarrow> Inl e
      | Inr rws \<Rightarrow>
          if rws = [] then Inl KeyError
          else
            let uniques = pd_unique (map (\<lambda>r. r ''Issue key'') rws)
            in if NA \<in> set uniques then Inl ValueError
               else
                 let cm = case_map uniques
                 in Inr \<lparr>columns = [''Case #'', ''Issue key'', ''Summary'', ''Step #'',
                                     ''Action'', ''Data'', ''Expected Result''],
                         dtypes = (\<lambda>c. Object)
                           (''Case #'' := Int64,
                            ''Issue key'' := text_dtype (map (\<lambda>r. r ''Issue key'') rws),
                            ''Summary'' := text_dtype (map (\<lambda>r. r ''Summary'') rws),
                            ''Step #'' := infer_dtype (map (\<lambda>r. r ''Step #'') rws)),
                         rows = map (\<lambda>r. r(''Case #'' :=
                                   (case cm (r ''Issue key'') of None \<Rightarrow> NA | Some n \<Rightarrow> Num n)))
                                  rws\<rparr>)"

section \<open>Collapse transform\<close>

text \<open>
  \<open>df.groupby(group_col, sort=False).groups\<close>: for each distinct key that is not
  missing (\<open>dropna\<close> is on by default), in the order of first appearance, the index
  labels of the rows that have it, ascending.
\<close>

definition groups :: "row list \<Rightarrow> string \<Rightarrow> (cell \<times> nat list) list" where
  "groups rws group_col =
     map (\<lambda>k. (k, filter (\<lambda>i. (rws ! i) group_col = k) [0 ..< length rws]))
       (pd_unique (filter (\<lambda>k. k \<noteq> NA) (map (\<lambda>r. r group_col) rws)))"

text \<open>
  \<open>out.loc[idx, cols_to_blank] = ""\<close>. The empty string can be stored in a column of
  dtype \<open>Object\<close>. For a column of another dtype pandas raises TypeError ("Invalid value
  '' for dtype ...") from version 3.0 on; before 3.0 it turned the column into an object
  column, with a warning since 2.1. The model follows the current version.
\<close>

definition blank :: "string list \<Rightarrow> row \<Rightarrow> row" where
  "blank cols_to_blank r = (\<lambda>c. if c \<in> set cols_to_blank then Txt [] else r c)"

definition loc_blank :: "nat list \<Rightarrow> string list \<Rightarrow> row list \<Rightarrow> row list" where
  "loc_blank idx cols_to_blank out =
     map (\<lambda>i. if i \<in> set idx then blank cols_to_blank (out ! i) else out ! i) [0 ..< length out]"

definition loc_assign ::
  "(string \<Rightarrow> dtype) \<Rightarrow> nat list \<Rightarrow> string list \<Rightarrow> row list \<Rightarrow> pyerror + row list"
where
  "loc_assign dts idx cols_to_blank out =
     (if \<exists>c \<in> set cols_to_blank. dts c \<noteq> Object then Inl TypeError
      else Inr (loc_blank idx cols_to_blank out))"

text \<open>
  The loop over the groups: a group of more than one row has all its rows but the
  first blanked; the first exception leaves the function.
\<close>

fun blank_groups ::
  "(string \<Rightarrow> dtype) \<Rightarrow> string list \<Rightarrow> (cell \<times> nat list) list \<Rightarrow> row list \<Rightarrow>
   pyerror + row list"
where
  "blank_groups dts cols_to_blank [] out = Inr out"
| "blank_groups dts cols_to_blank ((k, idx) # gs) out =
     (if length idx > 1 then
        (case loc_assign dts (tl idx) cols_to_blank out of
           Inl e \<Rightarrow> Inl e
         | Inr out' \<Rightarrow> blank_groups dts cols_to_blank gs out')
      else blank_groups dts cols_to_blank gs out)"

text \<open>
  \<open>collapse_repeats(df, group_col, cols_to_blank)\<close>. \<open>df.empty\<close> holds of a frame without
  rows or without columns. The groups are those of the frame as it comes in, and storing
  the empty string leaves the dtype of an object column as it is. The model covers calls
  whose \<open>cols_to_blank\<close> are columns of the frame, as in the script's call.
\<close>

definition collapse_repeats :: "frame \<Rightarrow> string \<Rightarrow> string list \<Rightarrow> pyerror + frame" where
  "collapse_repeats df group_col cols_to_blank =
     (if rows df = [] \<or> columns df = [] \<or> group_col \<notin> set (columns df) then Inr df
      else
        (case blank_groups (dtypes df) cols_to_blank (groups (rows df) group_col) (rows df) of
           Inl e \<Rightarrow> Inl e
         | Inr out \<Rightarrow> Inr (df\<lparr>rows := out\<rparr>)))"

section \<open>The script\<close>

text \<open>
  The script from the detection of the columns to the table it shows, on the frame
  \<open>df_raw\<close> read from the upload. \<open>st.error(msg); st.stop()\<close> ends the run with the
  message; an exception of \<open>build_flat\<close> or of \<open>collapse_repeats\<close> ends it too.
\<close>

datatype outcome = Stopped string | Raised pyerror | Shown frame

definition missing :: "string list \<Rightarrow> string list" where
  "missing cols =
     (if col_steps cols = [] then [''Manual Test Steps''] else []) @
     (if col_key cols = [] then [''Issue key''] else []) @
     (if col_sum cols = [] then [''Summary''] else [])"

definition script ::
  "(string \<Rightarrow> json option) \<Rightarrow> (json \<Rightarrow> string) \<Rightarrow> string list \<Rightarrow> raw_row list \<Rightarrow> bool \<Rightarrow> outcome"
where
  "script loads repr df_columns df_rows collapse_opt =
     (if missing df_columns \<noteq> []
      then Stopped (''Eksik s'' @ [CHR 0xFC] @ ''tun(lar): '' @ join '', '' (missing df_columns))
      else
        case build_flat loads repr df_rows
               (col_steps df_columns) (col_key df_columns) (col_sum df_columns) of
          Inl e \<Rightarrow> Raised e
        | Inr flat \<Rightarrow>
            if collapse_opt then
              (case collapse_repeats flat ''Issue key'' [''Issue key'', ''Summary''] of
                 Inl e \<Rightarrow> Raised e
               | Inr collapsed \<Rightarrow> Shown collapsed)
            else Shown flat)"

section \<open>Example tables\<close>

text \<open>
  An uploaded table of five records with the keys A, A, B, A, C and no steps; a frame of
  six rows with the keys A, B, A, missing, missing, B; and an uploaded table of three
  records with the keys A, B, A, with and without summaries.
\<close>

definition example_table :: "raw_row list" where
  "example_table =
     map (\<lambda>k. (\<lambda>c. None)(''Issue key'' := Some k, ''Summary'' := Some ''s''))
       [''A'', ''A'', ''B'', ''A'', ''C'']"

definition example_frame :: frame where
  "example_frame =
     \<lparr>columns = [''Issue key'', ''Summary'', ''Action''],
      dtypes = (\<lambda>c. Object),
      rows =
        map (\<lambda>(k, s, a). (\<lambda>c. NA)(''Issue key'' := k, ''Summary'' := Txt s, ''Action'' := Txt a))
          [(Txt ''A'', ''one'', ''a1''), (Txt ''B'', ''two'', ''b1''), (Txt ''A'', ''one'', ''a2''),
           (NA, ''none'', ''n1''), (NA, ''none'', ''n2''), (Txt ''B'', ''two'', ''b2'')]\<rparr>"

definition example_upload :: "raw_row list" where
  "example_upload =
     map (\<lambda>(k, s). (\<lambda>c. None)(''Issue key'' := Some k, ''Summary'' := Some s))
       [(''A'', ''one''), (''B'', ''two''), (''A'', ''one'')]"

definition example_upload_no_summary :: "raw_row list" where
  "example_upload_no_summary =
     map (\<lambda>k. (\<lambda>c. None)(''Issue key'' := Some k)) [''A'', ''B'', ''A'']"

section \<open>Properties of the column resolver\<close>

lemma length_lower [simp]: "length (lower s) = length s"
  by (simp add: lower_def)

lemma lower_Nil_iff [simp]: "lower s = [] \<longleftrightarrow> s = []"
  by (simp add: lower_def)

lemma find_col_no_match:
  "(\<forall>c \<in> set cols. \<not> sublist (lower needle) (lower c)) \<Longrightarrow> find_col cols needle = []"
  by (induction cols) auto

lemma find_col_first:
  "sublist (lower needle) (lower c) \<Longrightarrow>
   (\<forall>p \<in> set pre. \<not> sublist (lower needle) (lower p)) \<Longrightarrow>
   find_col (pre @ c # post) needle = c"
  by (induction pre) auto


lemma find_col_match_nonempty:
  "needle \<noteq> [] \<Longrightarrow> sublist (lower needle) (lower c) \<Longrightarrow> c \<noteq> []"
  by (cases c) (auto simp: lower_def)

lemma find_col_empty_iff:
  "needle \<noteq> [] \<Longrightarrow>
   find_col cols needle = [] \<longleftrightarrow> (\<forall>c \<in> set cols. \<not> sublist (lower needle) (lower c))"
  by (induction cols) (auto dest: find_col_match_nonempty)



section \<open>Properties of the cell parser\<close>

lemma strip_Nil_iff: "strip s = [] \<longleftrightarrow> (\<forall>c \<in> set s. is_space c)"
proof
  assume "strip s = []"
  then have "\<forall>x \<in> set (dropWhile is_space s). is_space x"
    by (simp add: strip_def)
  then have "dropWhile is_space s = []"
    using hd_dropWhile [of is_space s] by (cases "dropWhile is_space s") auto
  then show "\<forall>c \<in> set s. is_space c"
    by simp
next
  assume "\<forall>c \<in> set s. is_space c"
  then have "dropWhile is_space s = []" by simp
  then show "strip s = []" by (simp add: strip_def del: dropWhile_eq_Nil_conv)
qed

text \<open>
  C2. A cell that is absent (not a str), empty or made of whitespace only, or whose
  trimmed text, with non-breaking spaces replaced, is refused by the decoder both as it
  is and with every single quote replaced by a double quote, parses to the empty list of
  steps, and no exception leaves the parser. This holds for every decoder.
\<close>

theorem parse_cell_no_steps:
  assumes "cell = None \<or>
           (\<exists>c. cell = Some c \<and>
              ((\<forall>ch \<in> set c. is_space ch) \<or>
               (loads (replace (CHR 0xA0) (CHR '' '') (strip c)) = None \<and>
                loads (replace (CHR 0x27) (CHR 0x22)
                         (replace (CHR 0xA0) (CHR '' '') (strip c))) = None)))"
  shows "parse_manual_steps_cell loads repr cell = Inr []"
  using assms
  by (auto simp: parse_manual_steps_cell_def strip_Nil_iff Let_def)

theorem parse_cell_no_steps_witness:
  "parse_manual_steps_cell json_loads (\<lambda>v. []) None = Inr [] \<and>
   parse_manual_steps_cell json_loads (\<lambda>v. []) (Some []) = Inr [] \<and>
   parse_manual_steps_cell json_loads (\<lambda>v. []) (Some [CHR '' '', CHR 0x0A, CHR 0xA0]) = Inr [] \<and>
   json_loads ''{not json'' = None \<and>
   json_loads (replace (CHR 0x27) (CHR 0x22) ''{not json'') = None \<and>
   parse_manual_steps_cell json_loads (\<lambda>v. []) (Some '' {not json '') = Inr []"
proof -
  have a: "\<forall>ch \<in> set []. is_space ch" by simp
  have b: "\<forall>ch \<in> set [CHR '' '', CHR 0x0A, CHR 0xA0]. is_space ch" by code_simp
  have c: "json_loads (replace (CHR 0xA0) (CHR '' '') (strip '' {not json '')) = None \<and>
        json_loads (replace (CHR 0x27) (CHR 0x22)
          (replace (CHR 0xA0) (CHR '' '') (strip '' {not json ''))) = None"
    by code_simp
  have d: "json_loads ''{not json'' = None \<and>
        json_loads (replace (CHR 0x27) (CHR 0x22) ''{not json'') = None"
    by code_simp
  show ?thesis
    using parse_cell_no_steps [of None json_loads "\<lambda>v. []"]
      parse_cell_no_steps [of "Some []" json_loads "\<lambda>v. []"] a
      parse_cell_no_steps [of "Some [CHR '' '', CHR 0x0A, CHR 0xA0]" json_loads "\<lambda>v. []"] b
      parse_cell_no_steps [of "Some '' {not json ''" json_loads "\<lambda>v. []"] c d
    by blast
qed

text \<open>
  C3. The single-quoted cell \<open>[{'index':2,'fields':{'Action':'A'}}]\<close> is refused by the
  strict decode and accepted once every single quote is replaced by a double quote; the
  parser returns exactly one step, with Step # 2, Action "A" and empty Data and
  Expected Result.
\<close>

theorem parse_cell_single_quoted:
  "json_loads ''[{'index':2,'fields':{'Action':'A'}}]'' = None \<and>
   json_loads (replace (CHR 0x27) (CHR 0x22) ''[{'index':2,'fields':{'Action':'A'}}]'') =
     Some (JArr [JObj [(''index'', JInt 2), (''fields'', JObj [(''Action'', JStr ''A'')])]]) \<and>
   parse_manual_steps_cell json_loads repr (Some ''[{'index':2,'fields':{'Action':'A'}}]'') =
     Inr [\<lparr>step_no = JInt 2, action = ''A'', data = [], expected = []\<rparr>]"
  by code_simp

text \<open>
  C10. A cell whose text decodes, at the strict attempt or at the relaxed one, to a value
  that is not a list (a dict, a str, a number, a bool or \<open>None\<close>) parses to the empty
  list of steps: neither an exception nor a one-element list. This holds for every
  decoder.
\<close>

theorem parse_cell_not_array:
  assumes "loads (replace (CHR 0xA0) (CHR '' '') (strip c)) = Some v \<or>
           (loads (replace (CHR 0xA0) (CHR '' '') (strip c)) = None \<and>
            loads (replace (CHR 0x27) (CHR 0x22)
                     (replace (CHR 0xA0) (CHR '' '') (strip c))) = Some v)"
    and "\<forall>items. v \<noteq> JArr items"
  shows "parse_manual_steps_cell loads repr (Some c) = Inr []"
  using assms
  by (cases v) (auto simp: parse_manual_steps_cell_def steps_of_value_def Let_def)

theorem parse_cell_not_array_witness:
  "json_loads ''{}'' = Some (JObj []) \<and>
   parse_manual_steps_cell json_loads (\<lambda>v. []) (Some ''{}'') = Inr [] \<and>
   json_loads ''42'' = Some (JInt 42) \<and>
   parse_manual_steps_cell json_loads (\<lambda>v. []) (Some ''42'') = Inr [] \<and>
   json_loads ''null'' = Some JNull \<and>
   parse_manual_steps_cell json_loads (\<lambda>v. []) (Some ''null'') = Inr [] \<and>
   json_loads ''{'a': true}'' = None \<and>
   json_loads (replace (CHR 0x27) (CHR 0x22) ''{'a': true}'') = Some (JObj [(''a'', JBool True)]) \<and>
   parse_manual_steps_cell json_loads (\<lambda>v. []) (Some ''{'a': true}'') = Inr []"
proof -
  have a: "json_loads (replace (CHR 0xA0) (CHR '' '') (strip ''{}'')) = Some (JObj [])"
    by code_simp
  have b: "json_loads (replace (CHR 0xA0) (CHR '' '') (strip ''42'')) = Some (JInt 42)"
    by code_simp
  have c: "json_loads (replace (CHR 0xA0) (CHR '' '') (strip ''null'')) = Some JNull"
    by code_simp
  have d: "json_loads (replace (CHR 0xA0) (CHR '' '') (strip ''{'a': true}'')) = None \<and>
        json_loads (replace (CHR 0x27) (CHR 0x22)
          (replace (CHR 0xA0) (CHR '' '') (strip ''{'a': true}''))) = Some (JObj [(''a'', JBool True)])"
    by code_simp
  have e: "json_loads ''{}'' = Some (JObj []) \<and> json_loads ''42'' = Some (JInt 42) \<and>
        json_loads ''null'' = Some JNull \<and> json_loads ''{'a': true}'' = None \<and>
        json_loads (replace (CHR 0x27) (CHR 0x22) ''{'a': true}'') = Some (JObj [(''a'', JBool True)])"
    by code_simp
  show ?thesis
    using parse_cell_not_array [of json_loads "''{}''" "JObj []" "\<lambda>v. []"] a
      parse_cell_not_array [of json_loads "''42''" "JInt 42" "\<lambda>v. []"] b
      parse_cell_not_array [of json_loads "''null''" JNull "\<lambda>v. []"] c
      parse_cell_not_array [of json_loads "''{'a': true}''" "JObj [(''a'', JBool True)]" "\<lambda>v. []"] d
      e
    by simp
qed

lemma step_of_error: "step_of repr item = Inl e \<Longrightarrow> e = AttributeError"
  by (auto simp: step_of_def Let_def split: json.splits)

lemma step_of_non_object: "\<forall>d. item \<noteq> JObj d \<Longrightarrow> step_of repr item = Inl AttributeError"
  by (cases item) (auto simp: step_of_def Let_def)

lemma step_of_object:
  "dict_get d ''fields'' (JObj []) = JObj f \<Longrightarrow> \<exists>st. step_of repr (JObj d) = Inr st"
  by (simp add: step_of_def Let_def)

lemma steps_of_length: "steps_of repr items = Inr out \<Longrightarrow> length out = length items"
  by (induction items arbitrary: out) (auto split: sum.splits)

lemma steps_of_error: "steps_of repr items = Inl e \<Longrightarrow> e = AttributeError"
  by (induction items) (auto split: sum.splits dest: step_of_error)

lemma steps_of_non_object:
  "\<exists>item \<in> set items. \<forall>d. item \<noteq> JObj d \<Longrightarrow> steps_of repr items = Inl AttributeError"
proof (induction items)
  case Nil
  then show ?case by simp
next
  case (Cons a items)
  show ?case
  proof (cases "step_of repr a")
    case (Inl e)
    then show ?thesis using step_of_error [OF Inl] by simp
  next
    case (Inr st)
    then have "\<exists>d. a = JObj d" using step_of_non_object [of a repr] by auto
    with Cons.prems have "\<exists>item \<in> set items. \<forall>d. item \<noteq> JObj d" by auto
    then have "steps_of repr items = Inl AttributeError" by (rule Cons.IH)
    with Inr show ?thesis by simp
  qed
qed

lemma steps_of_objects:
  "\<forall>item \<in> set items. \<exists>d f. item = JObj d \<and> dict_get d ''fields'' (JObj []) = JObj f \<Longrightarrow>
   \<exists>out. steps_of repr items = Inr out \<and> length out = length items"
proof (induction items)
  case Nil
  show ?case by simp
next
  case (Cons a items)
  then obtain out where "steps_of repr items = Inr out" "length out = length items" by auto
  moreover from Cons.prems obtain st where "step_of repr a = Inr st"
    using step_of_object by fastforce
  ultimately show ?case by simp
qed

text \<open>
  C1. The claim: a cell that decodes to a list yields one step per element and never
  raises, an element that is not a dict giving a step with empty fields. The source
  yields one step per element when every element is a dict whose \<open>fields\<close> entry, if
  there is one, is a dict (\<open>steps_of_objects\<close>); on any element that is not a dict it
  raises AttributeError (\<open>steps_of_non_object\<close>). The cell \<open>[1]\<close> decodes to the list
  holding the int 1, and the parser raises AttributeError at \<open>item.get("index")\<close>; a
  dict whose \<open>fields\<close> entry is the int 5 raises it at \<open>fields.get("Action", "")\<close>.
\<close>

theorem parse_cell_non_object_raises:
  "json_loads ''[1]'' = Some (JArr [JInt 1]) \<and>
   parse_manual_steps_cell json_loads repr (Some ''[1]'') = Inl AttributeError \<and>
   parse_manual_steps_cell json_loads repr (Some ''[{'index': 1, 'fields': 5}]'') =
     Inl AttributeError"
  by code_simp

section \<open>Properties of the flattener\<close>

lemma set_pd_unique [simp]: "set (pd_unique xs) = set xs"
  by (induction xs rule: pd_unique.induct) auto

lemma distinct_pd_unique [simp]: "distinct (pd_unique xs)"
  by (induction xs rule: pd_unique.induct) auto

lemma pd_unique_append:
  "pd_unique (xs @ ys) = pd_unique xs @ pd_unique (filter (\<lambda>y. y \<notin> set xs) ys)"
proof (induction xs arbitrary: ys rule: pd_unique.induct)
  case 1
  show ?case by simp
next
  case (2 x xs)
  have "filter (\<lambda>y. y \<notin> set (removeAll x xs)) (removeAll x ys) =
        filter (\<lambda>y. y \<notin> set (x # xs)) ys"
    by (induction ys) auto
  with 2 [of "removeAll x ys"] show ?case by simp
qed

lemma pd_unique_first_index:
  assumes "k \<notin> set pre"
  shows "pd_unique (pre @ k # post) ! card (set pre) = k \<and>
         card (set pre) < length (pd_unique (pre @ k # post))"
proof -
  have "length (pd_unique pre) = card (set pre)"
    using distinct_card [of "pd_unique pre"] by simp
  then show ?thesis
    using assms by (simp add: pd_unique_append nth_append)
qed

lemma map_of_zip_rank:
  assumes "distinct ks" and "m < length ks"
  shows "map_of (zip ks [1 ..< Suc (length ks)]) (ks ! m) = Some (Suc m)"
proof -
  have "map_of (zip ks [1 ..< Suc (length ks)]) (ks ! m) = Some ([1 ..< Suc (length ks)] ! m)"
    using assms by (intro map_of_zip_nth) (simp_all del: upt_Suc)
  moreover have "[1 ..< Suc (length ks)] ! m = Suc m"
    using assms(2) by (simp del: upt_Suc)
  ultimately show ?thesis by simp
qed

lemma case_map_first:
  assumes "NA \<notin> set (pre @ k # post)" and "k \<notin> set pre"
  shows "case_map (pd_unique (pre @ k # post)) k = Some (card (set (pre @ [k])))"
proof -
  let ?u = "pd_unique (pre @ k # post)"
  have f: "filter (\<lambda>u. u \<noteq> NA) ?u = ?u"
    using assms(1) by (intro filter_True) (metis set_pd_unique)
  have "map_of (zip ?u [1 ..< Suc (length ?u)]) (?u ! card (set pre)) = Some (Suc (card (set pre)))"
    using pd_unique_first_index [OF assms(2), of post] by (intro map_of_zip_rank) auto
  then have "case_map ?u k = Some (Suc (card (set pre)))"
    using pd_unique_first_index [OF assms(2), of post] by (simp add: case_map_def f Let_def)
  moreover have "card (set (pre @ [k])) = Suc (card (set pre))"
    using assms(2) by simp
  ultimately show ?thesis by simp
qed

lemma first_occurrence:
  assumes "i < length keys"
  shows "\<exists>j \<le> i. keys ! j = keys ! i \<and> (\<forall>j' < j. keys ! j' \<noteq> keys ! i)"
proof -
  define j where "j = (LEAST j. keys ! j = keys ! i)"
  have "keys ! j = keys ! i" unfolding j_def by (rule LeastI) simp
  moreover have "j \<le> i" unfolding j_def by (rule Least_le) simp
  moreover have "\<forall>j' < j. keys ! j' \<noteq> keys ! i"
    unfolding j_def using not_less_Least by blast
  ultimately show ?thesis by blast
qed

lemma case_map_rank:
  assumes "NA \<notin> set keys" and "j < length keys" and "\<forall>j' < j. keys ! j' \<noteq> keys ! j"
  shows "case_map (pd_unique keys) (keys ! j) = Some (card (set (take (Suc j) keys)))"
proof -
  have split: "keys = take j keys @ keys ! j # drop (Suc j) keys"
    using assms(2) by (simp add: id_take_nth_drop)
  have new: "keys ! j \<notin> set (take j keys)"
    using assms(2,3) by (auto simp: in_set_conv_nth)
  have "case_map (pd_unique (take j keys @ keys ! j # drop (Suc j) keys)) (keys ! j) =
        Some (card (set (take j keys @ [keys ! j])))"
    using assms(1) split new by (intro case_map_first) auto
  then show ?thesis
    using split assms(2) by (simp add: take_Suc_conv_app_nth)
qed

lemma build_flat_Inr:
  assumes "build_flat loads repr df c_steps c_key c_sum = Inr flat"
  obtains rws where "all_rows loads repr c_steps c_key c_sum df = Inr rws"
    and "rws \<noteq> []"
    and "NA \<notin> set (map (\<lambda>r. r ''Issue key'') rws)"
    and "columns flat = [''Case #'', ''Issue key'', ''Summary'', ''Step #'',
                         ''Action'', ''Data'', ''Expected Result'']"
    and "rows flat =
           map (\<lambda>r. r(''Case #'' :=
                  (case case_map (pd_unique (map (\<lambda>r. r ''Issue key'') rws)) (r ''Issue key'') of
                     None \<Rightarrow> NA | Some n \<Rightarrow> Num n))) rws"
  using assms
  by (auto simp: build_flat_def Let_def split: sum.splits if_splits)

lemma record_rows_Inr:
  assumes "record_rows loads repr c_steps c_key c_sum r = Inr new"
  obtains steps where "parse_manual_steps_cell loads repr (r c_steps) = Inr steps"
    and "steps = [] \<Longrightarrow>
           new = [flat_row (text_cell (r c_key)) (text_cell (r c_sum)) NA [] [] []]"
    and "steps \<noteq> [] \<Longrightarrow>
           new = map (\<lambda>s. flat_row (text_cell (r c_key)) (text_cell (r c_sum))
                         (value_cell (step_no s)) (action s) (data s) (expected s)) steps"
  using assms
  by (auto simp: record_rows_def Let_def split: sum.splits if_splits)

lemma record_rows_placeholder:
  assumes "parse_manual_steps_cell loads repr (r c_steps) = Inr []"
  shows "\<exists>w. record_rows loads repr c_steps c_key c_sum r = Inr [w] \<and>
           w ''Issue key'' = text_cell (r c_key) \<and> w ''Summary'' = text_cell (r c_sum) \<and>
           w ''Step #'' = NA \<and> w ''Action'' = Txt [] \<and> w ''Data'' = Txt [] \<and>
           w ''Expected Result'' = Txt []"
  using assms by (simp add: record_rows_def Let_def flat_row_def)

lemma record_rows_length:
  assumes "record_rows loads repr c_steps c_key c_sum r = Inr new"
  shows "\<exists>steps. parse_manual_steps_cell loads repr (r c_steps) = Inr steps \<and>
           length new = max 1 (length steps)"
proof -
  from assms obtain steps where
    p: "parse_manual_steps_cell loads repr (r c_steps) = Inr steps" and
    e: "steps = [] \<Longrightarrow> length new = 1" and
    n: "steps \<noteq> [] \<Longrightarrow> length new = length steps"
    by (rule record_rows_Inr) auto
  have "length new = max 1 (length steps)"
    using e n by (cases steps) auto
  with p show ?thesis by blast
qed

lemma all_rows_count:
  assumes "all_rows loads repr c_steps c_key c_sum df = Inr rws"
  shows "length df \<le> length rws \<and>
         (length rws = length df \<longleftrightarrow>
            (\<forall>r \<in> set df. \<forall>steps.
               parse_manual_steps_cell loads repr (r c_steps) = Inr steps \<longrightarrow> length steps \<le> 1))"
  using assms
proof (induction df arbitrary: rws)
  case Nil
  then show ?case by simp
next
  case (Cons r rs)
  from Cons.prems obtain new later where
    new: "record_rows loads repr c_steps c_key c_sum r = Inr new" and
    later: "all_rows loads repr c_steps c_key c_sum rs = Inr later" and
    rws: "rws = new @ later"
    by (auto split: sum.splits)
  from record_rows_length [OF new] obtain steps where
    p: "parse_manual_steps_cell loads repr (r c_steps) = Inr steps" and
    l: "length new = max 1 (length steps)"
    by blast
  from Cons.IH [OF later] have
    ih1: "length rs \<le> length later" and
    ih2: "length later = length rs \<longleftrightarrow>
            (\<forall>r \<in> set rs. \<forall>steps.
               parse_manual_steps_cell loads repr (r c_steps) = Inr steps \<longrightarrow> length steps \<le> 1)"
    by blast+
  have a: "length (r # rs) \<le> length rws"
    using l ih1 by (simp add: rws)
  have "length rws = length (r # rs) \<longleftrightarrow> length steps \<le> 1 \<and> length later = length rs"
    using l ih1 by (auto simp: rws)
  then have b: "length rws = length (r # rs) \<longleftrightarrow>
      (\<forall>r' \<in> set (r # rs). \<forall>steps.
         parse_manual_steps_cell loads repr (r' c_steps) = Inr steps \<longrightarrow> length steps \<le> 1)"
    using p ih2 by auto
  from a b show ?case by blast
qed

lemma build_flat_row_count:
  assumes "build_flat loads repr df c_steps c_key c_sum = Inr flat"
  shows "length df \<le> length (rows flat) \<and>
         (length (rows flat) = length df \<longleftrightarrow>
            (\<forall>r \<in> set df. \<forall>steps.
               parse_manual_steps_cell loads repr (r c_steps) = Inr steps \<longrightarrow> length steps \<le> 1))"
proof -
  from assms obtain rws where
    a: "all_rows loads repr c_steps c_key c_sum df = Inr rws" and
    r: "rows flat =
           map (\<lambda>r. r(''Case #'' :=
                  (case case_map (pd_unique (map (\<lambda>r. r ''Issue key'') rws)) (r ''Issue key'') of
                     None \<Rightarrow> NA | Some n \<Rightarrow> Num n))) rws"
    by (rule build_flat_Inr)
  have "length (rows flat) = length rws" by (simp add: r)
  with all_rows_count [OF a] show ?thesis by simp
qed

lemma build_flat_returns:
  assumes "df \<noteq> []"
    and "\<forall>r \<in> set df. r c_key \<noteq> None \<and>
           (\<exists>steps. parse_manual_steps_cell loads repr (r c_steps) = Inr steps)"
  shows "\<exists>flat. build_flat loads repr df c_steps c_key c_sum = Inr flat"
proof -
  have "\<exists>rws. all_rows loads repr c_steps c_key c_sum df = Inr rws \<and>
          (df \<noteq> [] \<longrightarrow> rws \<noteq> []) \<and> (\<forall>w \<in> set rws. w ''Issue key'' \<noteq> NA)"
    using assms(2)
  proof (induction df)
    case Nil
    show ?case by simp
  next
    case (Cons r rs)
    from Cons.prems obtain steps t where
      p: "parse_manual_steps_cell loads repr (r c_steps) = Inr steps" and k: "r c_key = Some t"
      by auto
    from Cons obtain later where
      l: "all_rows loads repr c_steps c_key c_sum rs = Inr later"
         "\<forall>w \<in> set later. w ''Issue key'' \<noteq> NA"
      by auto
    show ?case
      using p k l by (auto simp: record_rows_def Let_def flat_row_def text_cell_def)
  qed
  then obtain rws where "all_rows loads repr c_steps c_key c_sum df = Inr rws"
    "rws \<noteq> []" "\<forall>w \<in> set rws. w ''Issue key'' \<noteq> NA"
    using assms(1) by blast
  then show ?thesis
    by (auto simp: build_flat_def Let_def)
qed

text \<open>
  C4. The claim: for every table the flattener returns at least as many rows as the table
  has, with equality exactly when every record has at most one step. Where
  \<open>build_flat\<close> returns, this holds (\<open>build_flat_row_count\<close>), and it returns for a table
  that has a row, whose keys are all present and whose cells all parse
  (\<open>build_flat_returns\<close>). It does not return for every table: on the table without rows
  it raises KeyError, on a table with a missing key it raises ValueError, and an
  exception of the cell parser leaves it too.
\<close>

theorem build_flat_raises:
  "build_flat loads repr [] c_steps c_key c_sum = Inl KeyError \<and>
   build_flat json_loads repr [(\<lambda>c. None)(''Summary'' := Some ''no key'')]
     ''Manual Test Steps'' ''Issue key'' ''Summary'' = Inl ValueError \<and>
   build_flat json_loads repr
     [(\<lambda>c. None)(''Issue key'' := Some ''A'', ''Manual Test Steps'' := Some ''[1]'')]
     ''Manual Test Steps'' ''Issue key'' ''Summary'' = Inl AttributeError"
proof -
  have a: "build_flat loads repr [] c_steps c_key c_sum = Inl KeyError"
    by (simp add: build_flat_def)
  have "map_sum id (\<lambda>f. length (rows f))
     (build_flat json_loads repr [(\<lambda>c. None)(''Summary'' := Some ''no key'')]
       ''Manual Test Steps'' ''Issue key'' ''Summary'') = Inl ValueError"
    by code_simp
  then have b: "build_flat json_loads repr [(\<lambda>c. None)(''Summary'' := Some ''no key'')]
     ''Manual Test Steps'' ''Issue key'' ''Summary'' = Inl ValueError"
    by (cases "build_flat json_loads repr [(\<lambda>c. None)(''Summary'' := Some ''no key'')]
     ''Manual Test Steps'' ''Issue key'' ''Summary''") auto
  have "map_sum id (\<lambda>f. length (rows f))
     (build_flat json_loads repr
       [(\<lambda>c. None)(''Issue key'' := Some ''A'', ''Manual Test Steps'' := Some ''[1]'')]
       ''Manual Test Steps'' ''Issue key'' ''Summary'') = Inl AttributeError"
    by code_simp
  then have c: "build_flat json_loads repr
     [(\<lambda>c. None)(''Issue key'' := Some ''A'', ''Manual Test Steps'' := Some ''[1]'')]
     ''Manual Test Steps'' ''Issue key'' ''Summary'' = Inl AttributeError"
    by (cases "build_flat json_loads repr
     [(\<lambda>c. None)(''Issue key'' := Some ''A'', ''Manual Test Steps'' := Some ''[1]'')]
     ''Manual Test Steps'' ''Issue key'' ''Summary''") auto
  from a b c show ?thesis by blast
qed

text \<open>
  Where \<open>build_flat\<close> returns, the case number of a row is the number of distinct keys
  in the rows up to the first row that has its key: the 1-based rank of the key's first
  appearance in emitted-row order. Rows that share a key share the case number.
\<close>

lemma case_numbers_by_first_appearance:
  assumes "build_flat loads repr df c_steps c_key c_sum = Inr flat"
  shows "let keys = map (\<lambda>r. r ''Issue key'') (rows flat)
         in (\<forall>i < length keys. \<exists>j \<le> i.
               keys ! j = keys ! i \<and> (\<forall>j' < j. keys ! j' \<noteq> keys ! i) \<and>
               (rows flat ! i) ''Case #'' = Num (card (set (take (Suc j) keys)))) \<and>
            (\<forall>i < length keys. \<forall>i' < length keys.
               keys ! i = keys ! i' \<longrightarrow> (rows flat ! i) ''Case #'' = (rows flat ! i') ''Case #'')"
proof -
  from assms obtain rws where
    na: "NA \<notin> set (map (\<lambda>r. r ''Issue key'') rws)" and
    rs: "rows flat =
           map (\<lambda>r. r(''Case #'' :=
                  (case case_map (pd_unique (map (\<lambda>r. r ''Issue key'') rws)) (r ''Issue key'') of
                     None \<Rightarrow> NA | Some n \<Rightarrow> Num n))) rws"
    by (rule build_flat_Inr)
  define keys where "keys = map (\<lambda>r. r ''Issue key'') rws"
  have keys: "map (\<lambda>r. r ''Issue key'') (rows flat) = keys"
    by (simp add: rs keys_def)
  have len: "length keys = length rws" by (simp add: keys_def)
  have cell: "(rows flat ! i) ''Case #'' =
      (case case_map (pd_unique keys) (keys ! i) of None \<Rightarrow> NA | Some n \<Rightarrow> Num n)"
    if "i < length keys" for i
    using that by (simp add: rs keys_def)
  have rank: "\<exists>j \<le> i. keys ! j = keys ! i \<and> (\<forall>j' < j. keys ! j' \<noteq> keys ! i) \<and>
      (rows flat ! i) ''Case #'' = Num (card (set (take (Suc j) keys)))"
    if i: "i < length keys" for i
  proof -
    from first_occurrence [OF i] obtain j where
      j: "j \<le> i" "keys ! j = keys ! i" "\<forall>j' < j. keys ! j' \<noteq> keys ! i"
      by blast
    have "case_map (pd_unique keys) (keys ! j) = Some (card (set (take (Suc j) keys)))"
      using na i j by (intro case_map_rank) (auto simp: keys_def)
    then have "(rows flat ! i) ''Case #'' = Num (card (set (take (Suc j) keys)))"
      using cell [OF i] j(2) by simp
    with j show ?thesis by blast
  qed
  have same: "(rows flat ! i) ''Case #'' = (rows flat ! i') ''Case #''"
    if "i < length keys" "i' < length keys" "keys ! i = keys ! i'" for i i'
    using that by (simp add: cell)
  show ?thesis
    unfolding keys Let_def using rank same by blast
qed

lemma case_numbers_example:
  "\<exists>flat. build_flat json_loads (\<lambda>v. []) example_table
             ''Manual Test Steps'' ''Issue key'' ''Summary'' = Inr flat \<and>
      map (\<lambda>r. (r ''Issue key'', r ''Case #'')) (rows flat) =
        [(Txt ''A'', Num 1), (Txt ''A'', Num 1), (Txt ''B'', Num 2), (Txt ''A'', Num 1),
         (Txt ''C'', Num 3)] \<and>
      (let keys = map (\<lambda>r. r ''Issue key'') (rows flat)
       in (\<forall>i < length keys. \<exists>j \<le> i.
             keys ! j = keys ! i \<and> (\<forall>j' < j. keys ! j' \<noteq> keys ! i) \<and>
             (rows flat ! i) ''Case #'' = Num (card (set (take (Suc j) keys)))) \<and>
          (\<forall>i < length keys. \<forall>i' < length keys.
             keys ! i = keys ! i' \<longrightarrow> (rows flat ! i) ''Case #'' = (rows flat ! i') ''Case #''))"
proof -
  have "map_sum id (\<lambda>f. map (\<lambda>r. (r ''Issue key'', r ''Case #'')) (rows f))
     (build_flat json_loads (\<lambda>v. []) example_table
        ''Manual Test Steps'' ''Issue key'' ''Summary'') =
     Inr [(Txt ''A'', Num 1), (Txt ''A'', Num 1), (Txt ''B'', Num 2), (Txt ''A'', Num 1),
          (Txt ''C'', Num 3)]"
    by code_simp
  then obtain flat where
    f: "build_flat json_loads (\<lambda>v. []) example_table
          ''Manual Test Steps'' ''Issue key'' ''Summary'' = Inr flat" and
    m: "map (\<lambda>r. (r ''Issue key'', r ''Case #'')) (rows flat) =
        [(Txt ''A'', Num 1), (Txt ''A'', Num 1), (Txt ''B'', Num 2), (Txt ''A'', Num 1),
         (Txt ''C'', Num 3)]"
    by (cases "build_flat json_loads (\<lambda>v. []) example_table
          ''Manual Test Steps'' ''Issue key'' ''Summary''") auto
  note t = case_numbers_by_first_appearance [OF f]
  show ?thesis by (rule exI [of _ flat]) (intro conjI f m t)
qed

text \<open>
  A record gives its key to every row it appends, so a record without a key leaves a
  missing key among the rows, and \<open>build_flat\<close> raises ValueError.
\<close>

lemma all_rows_keys:
  assumes "all_rows loads repr c_steps c_key c_sum df = Inr rws"
  shows "(\<lambda>w. w ''Issue key'') ` set rws = (\<lambda>r. text_cell (r c_key)) ` set df"
  using assms
proof (induction df arbitrary: rws)
  case Nil
  then show ?case by simp
next
  case (Cons r rs)
  from Cons.prems obtain new later where
    new: "record_rows loads repr c_steps c_key c_sum r = Inr new" and
    later: "all_rows loads repr c_steps c_key c_sum rs = Inr later" and
    rws: "rws = new @ later"
    by (auto split: sum.splits)
  have "new \<noteq> [] \<and> (\<forall>w \<in> set new. w ''Issue key'' = text_cell (r c_key))"
    using new by (auto simp: record_rows_def Let_def flat_row_def split: sum.splits if_splits)
  then have "(\<lambda>w. w ''Issue key'') ` set new = {text_cell (r c_key)}"
    by (cases new) auto
  with Cons.IH [OF later] show ?case
    by (simp add: rws image_Un)
qed

lemma build_flat_missing_key:
  assumes "all_rows loads repr c_steps c_key c_sum df = Inr rws"
    and "\<exists>r \<in> set df. r c_key = None"
  shows "build_flat loads repr df c_steps c_key c_sum = Inl ValueError"
proof -
  from assms(2) have "NA \<in> (\<lambda>r. text_cell (r c_key)) ` set df"
    by (force simp: text_cell_def)
  then have na: "NA \<in> (\<lambda>w. w ''Issue key'') ` set rws"
    using all_rows_keys [OF assms(1)] by simp
  then have "rws \<noteq> []" by auto
  with na assms(1) show ?thesis
    by (simp add: build_flat_def Let_def)
qed

text \<open>
  C5. The claim: case numbers are the ranks of the keys' first appearance, rows that
  share a key share the number, and a row whose key is empty or absent gets no case
  number. For the rows that have a key the source does this where it returns
  (\<open>case_numbers_by_first_appearance\<close>), and line 115 leaves the missing key out of the
  map, so that \<open>Series.map\<close> would give such a row no number. The source does not get
  there: an empty cell of the key column is read as a missing value, and with a missing
  key among the rows line 112 raises ValueError (\<open>build_flat_missing_key\<close>). For the
  table with the keys A, missing, B no row is emitted at all.
\<close>

theorem missing_key_raises:
  "build_flat json_loads repr
     [(\<lambda>c. None)(''Issue key'' := Some ''A'', ''Summary'' := Some ''first''),
      (\<lambda>c. None)(''Summary'' := Some ''second''),
      (\<lambda>c. None)(''Issue key'' := Some ''B'', ''Summary'' := Some ''third'')]
     ''Manual Test Steps'' ''Issue key'' ''Summary'' = Inl ValueError"
proof -
  have "map_sum id (\<lambda>f. length (rows f))
     (build_flat json_loads repr
       [(\<lambda>c. None)(''Issue key'' := Some ''A'', ''Summary'' := Some ''first''),
        (\<lambda>c. None)(''Summary'' := Some ''second''),
        (\<lambda>c. None)(''Issue key'' := Some ''B'', ''Summary'' := Some ''third'')]
       ''Manual Test Steps'' ''Issue key'' ''Summary'') = Inl ValueError"
    by code_simp
  then show ?thesis
    by (cases "build_flat json_loads repr
       [(\<lambda>c. None)(''Issue key'' := Some ''A'', ''Summary'' := Some ''first''),
        (\<lambda>c. None)(''Summary'' := Some ''second''),
        (\<lambda>c. None)(''Issue key'' := Some ''B'', ''Summary'' := Some ''third'')]
       ''Manual Test Steps'' ''Issue key'' ''Summary''") auto
qed

section \<open>Properties of the collapse transform\<close>

lemma blank_idem: "blank cols (blank cols r) = blank cols r"
  by (auto simp: blank_def)

lemma loc_blank_length [simp]: "length (loc_blank idx cols out) = length out"
  by (simp add: loc_blank_def)

lemma loc_blank_nth:
  "i < length out \<Longrightarrow>
   loc_blank idx cols out ! i = (if i \<in> set idx then blank cols (out ! i) else out ! i)"
  by (simp add: loc_blank_def)
lemma blank_groups_objects:
  assumes "\<forall>c \<in> set cols. dts c = Object"
  shows "\<exists>res. blank_groups dts cols gs out = Inr res \<and> length res = length out \<and>
   (\<forall>i < length out.
      res ! i =
      (if \<exists>(k, idx) \<in> set gs. i \<in> set (tl idx) then blank cols (out ! i) else out ! i))"
proof (induction gs arbitrary: out)
  case Nil
  show ?case by simp
next
  case (Cons g gs)
  obtain k idx where g: "g = (k, idx)" by (cases g)
  define out' where "out' = (if length idx > 1 then loc_blank (tl idx) cols out else out)"
  have short: "tl idx = []" if "\<not> length idx > 1"
    using that by (cases idx) auto
  have len: "length out' = length out"
    by (simp add: out'_def)
  have step: "out' ! i = (if i \<in> set (tl idx) then blank cols (out ! i) else out ! i)"
    if "i < length out" for i
    using that short by (auto simp: out'_def loc_blank_nth)
  have unfold: "blank_groups dts cols (g # gs) out = blank_groups dts cols gs out'"
    using assms by (simp add: g out'_def loc_assign_def)
  from Cons.IH [of out'] obtain res where
    res: "blank_groups dts cols gs out' = Inr res" and
    ih1: "length res = length out'" and
    ih2: "\<forall>i < length out'. res ! i =
      (if \<exists>(k, idx) \<in> set gs. i \<in> set (tl idx) then blank cols (out' ! i) else out' ! i)"
    by blast
  have "res ! i =
      (if \<exists>(k, idx) \<in> set (g # gs). i \<in> set (tl idx) then blank cols (out ! i) else out ! i)"
    if i: "i < length out" for i
  proof -
    have "res ! i =
      (if \<exists>(k, idx) \<in> set gs. i \<in> set (tl idx) then blank cols (out' ! i) else out' ! i)"
      using ih2 i len by simp
    then show ?thesis
      using step [OF i] by (auto simp: g blank_idem)
  qed
  with res ih1 len unfold show ?case by simp
qed

lemma blank_groups_no_repeat:
  "\<forall>(k, idx) \<in> set gs. tl idx = [] \<Longrightarrow> blank_groups dts cols gs out = Inr out"
proof (induction gs arbitrary: out)
  case Nil
  show ?case by simp
next
  case (Cons g gs)
  obtain k idx where g: "g = (k, idx)" by (cases g)
  from Cons.prems have "tl idx = []" by (simp add: g)
  then have "\<not> length idx > 1" by (cases idx) auto
  with Cons show ?case by (simp add: g)
qed

lemma blank_groups_raises:
  assumes "\<exists>c \<in> set cols. dts c \<noteq> Object"
  shows "\<exists>(k, idx) \<in> set gs. tl idx \<noteq> [] \<Longrightarrow> blank_groups dts cols gs out = Inl TypeError"
proof (induction gs arbitrary: out)
  case Nil
  then show ?case by simp
next
  case (Cons g gs)
  obtain k idx where g: "g = (k, idx)" by (cases g)
  show ?case
  proof (cases "length idx > 1")
    case True
    with assms show ?thesis by (simp add: g loc_assign_def)
  next
    case False
    then have "tl idx = []" by (cases idx) auto
    with Cons.prems have "\<exists>(k, idx) \<in> set gs. tl idx \<noteq> []" by (auto simp: g)
    then have "blank_groups dts cols gs out = Inl TypeError" by (rule Cons.IH)
    with False show ?thesis by (simp add: g)
  qed
qed

lemma in_tl_filter_upt:
  "i \<in> set (tl (filter P [0 ..< n])) \<longleftrightarrow> i < n \<and> P i \<and> (\<exists>j < i. P j)"
proof (induction n)
  case 0
  show ?case by simp
next
  case (Suc n)
  have ne: "filter P [0 ..< n] \<noteq> [] \<longleftrightarrow> (\<exists>j < n. P j)"
    by (auto simp: filter_empty_conv)
  show ?case
  proof (cases "P n")
    case True
    then have "tl (filter P [0 ..< Suc n]) =
        (if filter P [0 ..< n] = [] then [] else tl (filter P [0 ..< n]) @ [n])"
      by (cases "filter P [0 ..< n]") auto
    with Suc ne True show ?thesis
      by (auto simp: less_Suc_eq)
  next
    case False
    with Suc show ?thesis by (auto simp: less_Suc_eq)
  qed
qed

lemma in_groups_tl:
  "(\<exists>(k, idx) \<in> set (groups rws g). i \<in> set (tl idx)) \<longleftrightarrow>
   i < length rws \<and> (rws ! i) g \<noteq> NA \<and> (\<exists>j < i. (rws ! j) g = (rws ! i) g)"
  by (auto simp: groups_def in_tl_filter_upt)
lemma groups_repeat:
  "(\<exists>(k, idx) \<in> set (groups rws g). tl idx \<noteq> []) \<longleftrightarrow>
   (\<exists>i < length rws. (rws ! i) g \<noteq> NA \<and> (\<exists>j < i. (rws ! j) g = (rws ! i) g))"
proof -
  have "(\<exists>(k, idx) \<in> set (groups rws g). tl idx \<noteq> []) \<longleftrightarrow>
        (\<exists>i. \<exists>(k, idx) \<in> set (groups rws g). i \<in> set (tl idx))"
  proof
    assume "\<exists>(k, idx) \<in> set (groups rws g). tl idx \<noteq> []"
    then obtain k idx where m: "(k, idx) \<in> set (groups rws g)" and "tl idx \<noteq> []"
      by auto
    then obtain i where "i \<in> set (tl idx)"
      by (cases "tl idx") auto
    with m show "\<exists>i. \<exists>(k, idx) \<in> set (groups rws g). i \<in> set (tl idx)"
      by auto
  next
    assume "\<exists>i. \<exists>(k, idx) \<in> set (groups rws g). i \<in> set (tl idx)"
    then obtain i k idx where m: "(k, idx) \<in> set (groups rws g)" and "i \<in> set (tl idx)"
      by auto
    then have "tl idx \<noteq> []" by auto
    with m show "\<exists>(k, idx) \<in> set (groups rws g). tl idx \<noteq> []"
      by auto
  qed
  then show ?thesis
    using in_groups_tl [of rws g] by auto
qed

text \<open>
  When a row repeats the group value of an earlier row and a column to blank is not an
  object column, the assignment of line 132 raises TypeError. The script raises it for
  an upload in which a key repeats and no record has a summary: the column Summary of
  the flat table is then a float64 column.
\<close>

lemma collapse_repeats_raises:
  assumes "group_col \<in> set (columns df)"
    and "\<exists>i < length (rows df). (rows df ! i) group_col \<noteq> NA \<and>
           (\<exists>j < i. (rows df ! j) group_col = (rows df ! i) group_col)"
    and "\<exists>c \<in> set cols_to_blank. dtypes df c \<noteq> Object"
  shows "collapse_repeats df group_col cols_to_blank = Inl TypeError"
proof -
  have "rows df \<noteq> []" "columns df \<noteq> []"
    using assms(1,2) by auto
  moreover have "blank_groups (dtypes df) cols_to_blank (groups (rows df) group_col) (rows df) =
      Inl TypeError"
    using assms(2) by (intro blank_groups_raises [OF assms(3)]) (simp add: groups_repeat)
  ultimately show ?thesis
    using assms(1) by (simp add: collapse_repeats_def)
qed

lemma script_raises_without_summary:
  "(case script json_loads (\<lambda>v. [])
           [''Issue key'', ''Summary'', ''Custom field (Manual Test Steps)'']
           example_upload_no_summary True of
      Raised e \<Rightarrow> Some e | _ \<Rightarrow> None) = Some TypeError"
  by code_simp

text \<open>
  C7 (amended). For columns to blank that are object columns of the frame, or a frame
  in which no row repeats the group value of an earlier row, the collapse transform
  returns a frame with the columns, the dtypes, the length and the row order of its
  input. Rows are grouped by equal value of the group column over the whole frame, not
  by contiguous runs (a missing value is no value): a row is blanked when an earlier
  row, adjacent or not, has its group value. A blanked row has the empty string in every
  column of \<open>cols_to_blank\<close> and is unchanged in the other columns; every other row, the
  first of each group among them, is unchanged. A frame without rows or without the
  group column is returned as it is.
\<close>

theorem collapse_repeats_by_value:
  assumes "set cols_to_blank \<subseteq> set (columns df)"
    and "(\<forall>c \<in> set cols_to_blank. dtypes df c = Object) \<or>
         (\<forall>i < length (rows df).
            \<not> (group_col \<in> set (columns df) \<and> (rows df ! i) group_col \<noteq> NA \<and>
               (\<exists>j < i. (rows df ! j) group_col = (rows df ! i) group_col)))"
  shows "\<exists>out. collapse_repeats df group_col cols_to_blank = Inr out \<and>
    columns out = columns df \<and> dtypes out = dtypes df \<and>
    length (rows out) = length (rows df) \<and>
    (\<forall>i < length (rows df). \<forall>c.
       (rows out ! i) c =
       (if group_col \<in> set (columns df) \<and> c \<in> set cols_to_blank \<and>
           (rows df ! i) group_col \<noteq> NA \<and>
           (\<exists>j < i. (rows df ! j) group_col = (rows df ! i) group_col)
        then Txt [] else (rows df ! i) c)) \<and>
    (rows df = [] \<or> group_col \<notin> set (columns df) \<longrightarrow> out = df)"
proof (cases "rows df = [] \<or> columns df = [] \<or> group_col \<notin> set (columns df)")
  case True
  then have "collapse_repeats df group_col cols_to_blank = Inr df"
    by (simp add: collapse_repeats_def)
  with True show ?thesis by auto
next
  case False
  let ?gs = "groups (rows df) group_col"
  have "\<exists>res. blank_groups (dtypes df) cols_to_blank ?gs (rows df) = Inr res \<and>
      length res = length (rows df) \<and>
      (\<forall>i < length (rows df).
        res ! i =
        (if \<exists>(k, idx) \<in> set ?gs. i \<in> set (tl idx)
         then blank cols_to_blank (rows df ! i) else rows df ! i))"
  proof (cases "\<forall>c \<in> set cols_to_blank. dtypes df c = Object")
    case True
    then show ?thesis by (rule blank_groups_objects)
  next
    case no_obj: False
    with assms(2) False have none: "\<not> (\<exists>i < length (rows df). (rows df ! i) group_col \<noteq> NA \<and>
        (\<exists>j < i. (rows df ! j) group_col = (rows df ! i) group_col))"
      by blast
    then have flat: "\<forall>(k, idx) \<in> set ?gs. tl idx = []"
      using groups_repeat [of "rows df" group_col] by blast
    then have "blank_groups (dtypes df) cols_to_blank ?gs (rows df) = Inr (rows df)"
      by (rule blank_groups_no_repeat)
    moreover have "\<not> (\<exists>(k, idx) \<in> set ?gs. i \<in> set (tl idx))" for i
      using flat by fastforce
    ultimately show ?thesis by simp
  qed
  then obtain res where
    res: "blank_groups (dtypes df) cols_to_blank ?gs (rows df) = Inr res" and
    len: "length res = length (rows df)" and
    nth: "\<forall>i < length (rows df).
        res ! i =
        (if \<exists>(k, idx) \<in> set ?gs. i \<in> set (tl idx)
         then blank cols_to_blank (rows df ! i) else rows df ! i)"
    by blast
  have out: "collapse_repeats df group_col cols_to_blank = Inr (df\<lparr>rows := res\<rparr>)"
    using False res by (simp add: collapse_repeats_def)
  have cellwise: "(res ! i) c =
       (if group_col \<in> set (columns df) \<and> c \<in> set cols_to_blank \<and>
           (rows df ! i) group_col \<noteq> NA \<and>
           (\<exists>j < i. (rows df ! j) group_col = (rows df ! i) group_col)
        then Txt [] else (rows df ! i) c)"
    if i: "i < length (rows df)" for i c
    using nth i False by (auto simp: in_groups_tl blank_def)
  show ?thesis
    using False cellwise len by (intro exI [of _ "df\<lparr>rows := res\<rparr>"]) (simp add: out)
qed

theorem collapse_repeats_by_value_witness:
  "\<exists>out. collapse_repeats example_frame ''Issue key'' [''Issue key'', ''Summary''] = Inr out \<and>
     columns out = columns example_frame \<and>
     length (rows out) = 6 \<and>
     map (\<lambda>r. (r ''Issue key'', r ''Summary'', r ''Action'')) (rows out) =
     [(Txt ''A'', Txt ''one'', Txt ''a1''), (Txt ''B'', Txt ''two'', Txt ''b1''),
      (Txt [], Txt [], Txt ''a2''), (NA, Txt ''none'', Txt ''n1''), (NA, Txt ''none'', Txt ''n2''),
      (Txt [], Txt [], Txt ''b2'')]"
proof -
  have h: "set [''Issue key'', ''Summary''] \<subseteq> set (columns example_frame)"
    by (simp add: example_frame_def)
  have o: "(\<forall>c \<in> set [''Issue key'', ''Summary'']. dtypes example_frame c = Object) \<or>
         (\<forall>i < length (rows example_frame).
            \<not> (''Issue key'' \<in> set (columns example_frame) \<and>
               (rows example_frame ! i) ''Issue key'' \<noteq> NA \<and>
               (\<exists>j < i. (rows example_frame ! j) ''Issue key'' =
                          (rows example_frame ! i) ''Issue key'')))"
    by (simp add: example_frame_def)
  have l: "length (rows example_frame) = 6"
    by (simp add: example_frame_def)
  have e: "map_sum id (\<lambda>f. map (\<lambda>r. (r ''Issue key'', r ''Summary'', r ''Action'')) (rows f))
     (collapse_repeats example_frame ''Issue key'' [''Issue key'', ''Summary'']) =
   Inr [(Txt ''A'', Txt ''one'', Txt ''a1''), (Txt ''B'', Txt ''two'', Txt ''b1''),
    (Txt [], Txt [], Txt ''a2''), (NA, Txt ''none'', Txt ''n1''), (NA, Txt ''none'', Txt ''n2''),
    (Txt [], Txt [], Txt ''b2'')]"
    by code_simp
  from collapse_repeats_by_value [OF h o] obtain out where
    out: "collapse_repeats example_frame ''Issue key'' [''Issue key'', ''Summary''] = Inr out"
      "columns out = columns example_frame" "length (rows out) = length (rows example_frame)"
    by blast
  from e out(1) have m: "map (\<lambda>r. (r ''Issue key'', r ''Summary'', r ''Action'')) (rows out) =
     [(Txt ''A'', Txt ''one'', Txt ''a1''), (Txt ''B'', Txt ''two'', Txt ''b1''),
      (Txt [], Txt [], Txt ''a2''), (NA, Txt ''none'', Txt ''n1''), (NA, Txt ''none'', Txt ''n2''),
      (Txt [], Txt [], Txt ''b2'')]"
    by simp
  show ?thesis
    using out l m by (intro exI [of _ out]) simp
qed

text \<open>
  The claim as stated groups by contiguous runs and leaves the first row of each run
  unchanged. For the upload with the keys A, B, A the flat table has one row per record,
  every row opens a run of its own, and the script, with the option on, shows the third
  row blanked all the same.
\<close>

theorem collapse_blanks_across_runs:
  "(case script json_loads (\<lambda>v. [])
           [''Issue key'', ''Summary'', ''Custom field (Manual Test Steps)'']
           example_upload False of
      Shown f \<Rightarrow> map (\<lambda>r. (r ''Issue key'', r ''Summary'')) (rows f) | _ \<Rightarrow> []) =
     [(Txt ''A'', Txt ''one''), (Txt ''B'', Txt ''two''), (Txt ''A'', Txt ''one'')] \<and>
   (case script json_loads (\<lambda>v. [])
           [''Issue key'', ''Summary'', ''Custom field (Manual Test Steps)'']
           example_upload True of
      Shown f \<Rightarrow> map (\<lambda>r. (r ''Issue key'', r ''Summary'')) (rows f) | _ \<Rightarrow> []) =
     [(Txt ''A'', Txt ''one''), (Txt ''B'', Txt ''two''), (Txt [], Txt [])]"
  by code_simp

section \<open>Properties of the script\<close>

text \<open>
  C8. The list \<open>missing\<close> holds exactly the labels among "Manual Test Steps",
  "Issue key" and "Summary" that no column resolves (the key label is resolved by a
  column matching "Issue key" or, failing that, "Key"), in that order. When it is not
  empty the run stops with the message that lists them, whatever the rows, the decoder
  and the option are: \<open>build_flat\<close> is not reached and no table is produced. When it is
  empty the run does not stop with a message.
\<close>

theorem missing_columns_stop:
  "missing cols =
     filter (\<lambda>l.
        (l = ''Manual Test Steps'' \<and>
           (\<forall>c \<in> set cols. \<not> sublist (lower ''Manual Test Steps'') (lower c))) \<or>
        (l = ''Issue key'' \<and>
           (\<forall>c \<in> set cols. \<not> sublist (lower ''Issue key'') (lower c) \<and>
                            \<not> sublist (lower ''Key'') (lower c))) \<or>
        (l = ''Summary'' \<and> (\<forall>c \<in> set cols. \<not> sublist (lower ''Summary'') (lower c))))
       [''Manual Test Steps'', ''Issue key'', ''Summary''] \<and>
   (missing cols \<noteq> [] \<longrightarrow>
      script loads repr cols df opt =
        Stopped (''Eksik s'' @ [CHR 0xFC] @ ''tun(lar): '' @ join '', '' (missing cols))) \<and>
   (missing cols = [] \<longrightarrow> (\<forall>msg. script loads repr cols df opt \<noteq> Stopped msg))"
proof -
  have s: "col_steps cols = [] \<longleftrightarrow>
        (\<forall>c \<in> set cols. \<not> sublist (lower ''Manual Test Steps'') (lower c))"
    unfolding col_steps_def by (rule find_col_empty_iff) simp
  have k1: "find_col cols ''Issue key'' = [] \<longleftrightarrow>
        (\<forall>c \<in> set cols. \<not> sublist (lower ''Issue key'') (lower c))"
    by (rule find_col_empty_iff) simp
  have k2: "find_col cols ''Key'' = [] \<longleftrightarrow> (\<forall>c \<in> set cols. \<not> sublist (lower ''Key'') (lower c))"
    by (rule find_col_empty_iff) simp
  have k: "col_key cols = [] \<longleftrightarrow>
        (\<forall>c \<in> set cols. \<not> sublist (lower ''Issue key'') (lower c) \<and>
                         \<not> sublist (lower ''Key'') (lower c))"
    unfolding col_key_def Let_def using k1 k2 by auto
  have m: "col_sum cols = [] \<longleftrightarrow> (\<forall>c \<in> set cols. \<not> sublist (lower ''Summary'') (lower c))"
    unfolding col_sum_def by (rule find_col_empty_iff) simp
  have 1: "missing cols =
     filter (\<lambda>l.
        (l = ''Manual Test Steps'' \<and>
           (\<forall>c \<in> set cols. \<not> sublist (lower ''Manual Test Steps'') (lower c))) \<or>
        (l = ''Issue key'' \<and>
           (\<forall>c \<in> set cols. \<not> sublist (lower ''Issue key'') (lower c) \<and>
                            \<not> sublist (lower ''Key'') (lower c))) \<or>
        (l = ''Summary'' \<and> (\<forall>c \<in> set cols. \<not> sublist (lower ''Summary'') (lower c))))
       [''Manual Test Steps'', ''Issue key'', ''Summary'']"
    unfolding missing_def s k m by simp
  have 2: "missing cols \<noteq> [] \<longrightarrow>
      script loads repr cols df opt =
        Stopped (''Eksik s'' @ [CHR 0xFC] @ ''tun(lar): '' @ join '', '' (missing cols))"
    by (simp add: script_def)
  have 3: "missing cols = [] \<longrightarrow> (\<forall>msg. script loads repr cols df opt \<noteq> Stopped msg)"
    by (simp add: script_def split: sum.splits)
  from 1 2 3 show ?thesis by blast
qed

theorem missing_columns_stop_witness:
  "missing [''Summary'', ''Status''] = [''Manual Test Steps'', ''Issue key''] \<and>
   script json_loads (\<lambda>v. []) [''Summary'', ''Status''] [] True =
     Stopped (''Eksik s'' @ [CHR 0xFC] @ ''tun(lar): Manual Test Steps, Issue key'')"
proof -
  have a: "missing [''Summary'', ''Status''] = [''Manual Test Steps'', ''Issue key'']"
    by code_simp
  have b: "join '', '' [''Manual Test Steps'', ''Issue key''] = ''Manual Test Steps, Issue key''"
    by code_simp
  show ?thesis
    using missing_columns_stop [of "[''Summary'', ''Status'']" json_loads "\<lambda>v. []" "[]" True]
    unfolding a b by simp
qed

end
